theory Spec2Isabelle
  imports Main "HOL-Library.Word" "HOL-Library.Log_Nat"
begin

section \<open>The icon generator of materialdesign/icons/gen.go\<close>

text \<open>
  The development embeds the core of \<^verbatim>\<open>gen.go\<close>: the path-data tokenizer
  (\<^verbatim>\<open>genPathData\<close>, \<^verbatim>\<open>scan\<close>), the coordinate normalizer (\<^verbatim>\<open>normalize\<close>),
  the circle expansion and the opacity registers (\<^verbatim>\<open>genPath\<close>) and the loop over the
  paths of one icon (\<^verbatim>\<open>genFile\<close>). Directory traversal, XML decoding and the
  formatting of the generated Go source are not modelled.
\<close>

subsection \<open>Values of type float32\<close>

text \<open>
  A \<^verbatim>\<open>float32\<close> is a sign and a magnitude, an infinity, or a NaN. Every arithmetic
  operation computes the exact rational result and rounds it once to the nearest
  value with a 24-bit significand, ties to even, with gradual underflow below
  \<open>2 powi -126\<close> and overflow to infinity from \<open>2 ^ 128\<close> on. Each operation is
  rounded on its own: no multiplication is fused with a following addition.
\<close>

datatype float32 = Finite bool rat | Infinity bool | NaN

definition ilog2 :: "rat \<Rightarrow> int" where
  "ilog2 q = (case quotient_of q of (a, b) \<Rightarrow>
     (let e = bitlen a - bitlen b in if q < 2 powi e then e - 1 else e))"

definition round_half_even :: "rat \<Rightarrow> int" where
  "round_half_even q = (let f = \<lfloor>q\<rfloor>; d = q - of_int f in
     if d < 1 / 2 then f else if 1 / 2 < d then f + 1 else if even f then f else f + 1)"

definition round32 :: "bool \<Rightarrow> rat \<Rightarrow> float32" where
  "round32 sg m = (if m = 0 then Finite sg 0 else
     (let e = max (ilog2 m) (- 126);
          u = 2 powi (e - 23);
          r = of_int (round_half_even (m / u)) * u
      in if 2 ^ 128 \<le> r then Infinity sg else Finite sg r))"

definition f32 :: "rat \<Rightarrow> float32" where
  "f32 q = round32 (q < 0) \<bar>q\<bar>"

definition signed :: "bool \<Rightarrow> rat \<Rightarrow> rat" where
  "signed sg m = (if sg then - m else m)"

fun fneg :: "float32 \<Rightarrow> float32" where
  "fneg (Finite sg m) = Finite (\<not> sg) m"
| "fneg (Infinity sg) = Infinity (\<not> sg)"
| "fneg NaN = NaN"

fun fmul :: "float32 \<Rightarrow> float32 \<Rightarrow> float32" where
  "fmul (Finite a m) (Finite b k) = round32 (a \<noteq> b) (m * k)"
| "fmul (Finite a m) (Infinity b) = (if m = 0 then NaN else Infinity (a \<noteq> b))"
| "fmul (Infinity a) (Finite b k) = (if k = 0 then NaN else Infinity (a \<noteq> b))"
| "fmul (Infinity a) (Infinity b) = Infinity (a \<noteq> b)"
| "fmul NaN y = NaN"
| "fmul x NaN = NaN"

fun fdiv :: "float32 \<Rightarrow> float32 \<Rightarrow> float32" where
  "fdiv (Finite a m) (Finite b k) =
     (if k = 0 then (if m = 0 then NaN else Infinity (a \<noteq> b)) else round32 (a \<noteq> b) (m / k))"
| "fdiv (Finite a m) (Infinity b) = Finite (a \<noteq> b) 0"
| "fdiv (Infinity a) (Finite b k) = Infinity (a \<noteq> b)"
| "fdiv (Infinity a) (Infinity b) = NaN"
| "fdiv NaN y = NaN"
| "fdiv x NaN = NaN"

fun fadd :: "float32 \<Rightarrow> float32 \<Rightarrow> float32" where
  "fadd (Finite a m) (Finite b k) =
     (let v = signed a m + signed b k in
      if v = 0 then Finite (a \<and> b) 0 else round32 (v < 0) \<bar>v\<bar>)"
| "fadd (Finite a m) (Infinity b) = Infinity b"
| "fadd (Infinity a) (Finite b k) = Infinity a"
| "fadd (Infinity a) (Infinity b) = (if a = b then Infinity a else NaN)"
| "fadd NaN y = NaN"
| "fadd x NaN = NaN"

definition fsub :: "float32 \<Rightarrow> float32 \<Rightarrow> float32" where
  "fsub x y = fadd x (fneg y)"

text \<open>Go's \<^verbatim>\<open>==\<close> on floats: a NaN equals nothing, the two zeros are equal.\<close>

fun feq :: "float32 \<Rightarrow> float32 \<Rightarrow> bool" where
  "feq (Finite a m) (Finite b k) = (signed a m = signed b k)"
| "feq (Infinity a) (Infinity b) = (a = b)"
| "feq x y = False"

text \<open>
  The conversion \<^verbatim>\<open>uint8(x)\<close> of a float truncates towards zero. Go defines the
  result only when the truncated value fits the target type; for the other values the
  model follows the amd64 compiler, which converts to a 32-bit integer (the minimum
  integer when that overflows or the operand is a NaN) and keeps the low byte.
\<close>

fun uint8_of_float32 :: "float32 \<Rightarrow> 8 word" where
  "uint8_of_float32 (Finite sg m) =
     (let t = (if sg then - \<lfloor>m\<rfloor> else \<lfloor>m\<rfloor>) in
      if - (2 ^ 31) \<le> t \<and> t < 2 ^ 31 then word_of_int t else 0)"
| "uint8_of_float32 (Infinity sg) = 0"
| "uint8_of_float32 NaN = 0"

subsection \<open>The input reader\<close>

text \<open>
  A \<^verbatim>\<open>strings.Reader\<close> is the string and the index of the next byte.
  \<^verbatim>\<open>ReadByte\<close> at the end of the string returns \<^verbatim>\<open>io.EOF\<close> (here \<open>None\<close>) and
  leaves the index alone; \<^verbatim>\<open>UnreadByte\<close> steps the index back whenever it is
  positive, whether or not the last read delivered a byte.
\<close>

record reader =
  r_s :: string
  r_i :: nat

definition NewReader :: "string \<Rightarrow> reader" where
  "NewReader str = \<lparr>r_s = str, r_i = 0\<rparr>"

definition ReadByte :: "reader \<Rightarrow> char option \<times> reader" where
  "ReadByte r = (if length (r_s r) \<le> r_i r then (None, r)
                 else (Some (r_s r ! r_i r), r\<lparr>r_i := r_i r + 1\<rparr>))"

definition UnreadByte :: "reader \<Rightarrow> reader" where
  "UnreadByte r = (if r_i r \<le> 0 then r else r\<lparr>r_i := r_i r - 1\<rparr>)"

definition unread :: "reader \<Rightarrow> string" where
  "unread r = drop (r_i r) (r_s r)"

text \<open>
  \<^verbatim>\<open>fmt.Fscanf(r, "%f", &x)\<close> belongs to the Go library. The tokenizer takes its
  behaviour as a parameter: a scanner maps the unread input to the value stored
  (\<open>None\<close> when the call fails and leaves \<^verbatim>\<open>x\<close> alone) and the number of bytes
  consumed.
\<close>

type_synonym scanner = "string \<Rightarrow> float32 option \<times> nat"

definition Fscanf :: "scanner \<Rightarrow> reader \<Rightarrow> float32 option \<times> reader" where
  "Fscanf sc r = (case sc (unread r) of
     (v, k) \<Rightarrow> (v, r\<lparr>r_i := min (r_i r + k) (length (r_s r))\<rparr>))"

subsection \<open>The drawing sink\<close>

text \<open>
  Modelled from the spec: the encoder \<^verbatim>\<open>iconvg.Encoder\<close> belongs to this repository
  but is not among the sources at hand. The specification treats it as an abstract
  drawing-command sink whose serialization is not the generator's concern, so an
  encoder is the sequence of the calls made on it, oldest first, and the value of
  \<^verbatim>\<open>iconvg.BlendColor(t, c0, c1)\<close> is the triple of its arguments.
\<close>

datatype color = BlendColor "8 word" "8 word" "8 word"

datatype command =
    SetCReg "8 word" bool color
  | StartPath "8 word" float32 float32
  | AbsLineTo float32 float32
  | RelLineTo float32 float32
  | AbsSmoothQuadTo float32 float32
  | RelSmoothQuadTo float32 float32
  | AbsQuadTo float32 float32 float32 float32
  | RelQuadTo float32 float32 float32 float32
  | AbsSmoothCubeTo float32 float32 float32 float32
  | RelSmoothCubeTo float32 float32 float32 float32
  | AbsCubeTo float32 float32 float32 float32 float32 float32
  | RelCubeTo float32 float32 float32 float32 float32 float32
  | AbsHLineTo float32
  | RelHLineTo float32
  | AbsVLineTo float32
  | RelVLineTo float32
  | ClosePathAbsMoveTo float32 float32
  | ClosePathRelMoveTo float32 float32
  | RelArcTo float32 float32 float32 bool bool float32 float32
  | ClosePathEndPath

type_synonym encoder = "command list"

subsection \<open>Failures\<close>

text \<open>
  \<^verbatim>\<open>genPathData\<close> returns an error for an unknown opcode. Indexing the operand array
  \<^verbatim>\<open>[6]float32\<close> out of range is a run-time panic, kept as a failure of its own.
\<close>

datatype failure = UnknownOpcode char | IndexOutOfRange

subsection \<open>scan\<close>

function skip_spaces :: "reader \<Rightarrow> reader" where
  "skip_spaces r =
     (case ReadByte r of
        (None, r') \<Rightarrow> UnreadByte r'
      | (Some b, r') \<Rightarrow> if b \<noteq> CHR '' '' then UnreadByte r' else skip_spaces r')"
  by pat_completeness auto
termination
  by (relation "measure (\<lambda>r. length (r_s r) - r_i r)")
     (auto simp: ReadByte_def split: if_splits)

declare skip_spaces.simps [simp del]

function scan_loop ::
  "scanner \<Rightarrow> nat \<Rightarrow> float32 list \<Rightarrow> reader \<Rightarrow> nat \<Rightarrow> failure + float32 list \<times> reader" where
  "scan_loop sc i args r n =
     (if i < n then
        (let r1 = skip_spaces r in
         if length args \<le> i then Inl IndexOutOfRange
         else (case Fscanf sc r1 of
                 (None, r2) \<Rightarrow> scan_loop sc (i + 1) args r2 n
               | (Some x, r2) \<Rightarrow> scan_loop sc (i + 1) (args[i := x]) r2 n))
      else Inr (args, r))"
  by pat_completeness auto
termination
  by (relation "measure (\<lambda>(sc, i, args, r, n). n - i)") auto

declare scan_loop.simps [simp del]

definition scan :: "scanner \<Rightarrow> float32 list \<Rightarrow> reader \<Rightarrow> nat \<Rightarrow> failure + float32 list \<times> reader" where
  "scan sc args r n = scan_loop sc 0 args r n"

subsection \<open>normalize\<close>

definition outSize :: int where
  "outSize = 48"

type_synonym Vec2 = "float32 \<times> float32"

definition at2 :: "Vec2 \<Rightarrow> nat \<Rightarrow> float32" where
  "at2 v j = (if j = 0 then fst v else snd v)"

function normalize_loop ::
  "nat \<Rightarrow> float32 list \<Rightarrow> nat \<Rightarrow> char \<Rightarrow> float32 \<Rightarrow> Vec2 \<Rightarrow> bool \<Rightarrow> failure + float32 list" where
  "normalize_loop i args n op sz offset relative =
     (if i < n then
        (if length args \<le> i then Inl IndexOutOfRange
         else
           (let a = fmul (args ! i) (fdiv (f32 (of_int outSize)) sz) in
            if relative then normalize_loop (i + 1) (args[i := a]) n op sz offset relative
            else
              (let a = fsub a (f32 (of_int (outSize div 2)));
                   a = (if n \<noteq> 1 then fsub a (at2 offset (i mod 2))
                        else if op = CHR ''H'' then fsub a (at2 offset 0)
                        else if op = CHR ''V'' then fsub a (at2 offset 1)
                        else a)
               in normalize_loop (i + 1) (args[i := a]) n op sz offset relative)))
      else Inr args)"
  by pat_completeness auto
termination
  by (relation "measure (\<lambda>(i, args, n, op, sz, offset, relative). n - i)") auto

declare normalize_loop.simps [simp del]

definition normalize ::
  "float32 list \<Rightarrow> nat \<Rightarrow> char \<Rightarrow> float32 \<Rightarrow> Vec2 \<Rightarrow> bool \<Rightarrow> failure + float32 list" where
  "normalize args n op sz offset relative = normalize_loop 0 args n op sz offset relative"

subsection \<open>genPathData\<close>

definition isUpper :: "char \<Rightarrow> bool" where
  "isUpper b = ((65::nat) \<le> of_char b \<and> of_char b \<le> (90::nat))"

definition isLower :: "char \<Rightarrow> bool" where
  "isLower b = ((97::nat) \<le> of_char b \<and> of_char b \<le> (122::nat))"

text \<open>The first \<^verbatim>\<open>switch op\<close>: the number of operands, \<open>None\<close> in its default case.\<close>

definition arity :: "char \<Rightarrow> nat option" where
  "arity op =
     (if op \<in> {CHR ''L'', CHR ''l'', CHR ''T'', CHR ''t''} then Some 2
      else if op \<in> {CHR ''Q'', CHR ''q'', CHR ''S'', CHR ''s''} then Some 4
      else if op \<in> {CHR ''C'', CHR ''c''} then Some 6
      else if op \<in> {CHR ''H'', CHR ''h'', CHR ''V'', CHR ''v''} then Some 1
      else if op \<in> {CHR ''M'', CHR ''m''} then Some 2
      else if op \<in> {CHR ''Z'', CHR ''z''} then Some 0
      else None)"

text \<open>The second \<^verbatim>\<open>switch op\<close>: the call made on the encoder.\<close>

definition emit :: "char \<Rightarrow> 8 word \<Rightarrow> bool \<Rightarrow> float32 list \<Rightarrow> encoder \<Rightarrow> encoder" where
  "emit op adj started args enc =
     (if op = CHR ''L'' then enc @ [AbsLineTo (args ! 0) (args ! 1)]
      else if op = CHR ''l'' then enc @ [RelLineTo (args ! 0) (args ! 1)]
      else if op = CHR ''T'' then enc @ [AbsSmoothQuadTo (args ! 0) (args ! 1)]
      else if op = CHR ''t'' then enc @ [RelSmoothQuadTo (args ! 0) (args ! 1)]
      else if op = CHR ''Q'' then enc @ [AbsQuadTo (args ! 0) (args ! 1) (args ! 2) (args ! 3)]
      else if op = CHR ''q'' then enc @ [RelQuadTo (args ! 0) (args ! 1) (args ! 2) (args ! 3)]
      else if op = CHR ''S'' then enc @ [AbsSmoothCubeTo (args ! 0) (args ! 1) (args ! 2) (args ! 3)]
      else if op = CHR ''s'' then enc @ [RelSmoothCubeTo (args ! 0) (args ! 1) (args ! 2) (args ! 3)]
      else if op = CHR ''C'' then
        enc @ [AbsCubeTo (args ! 0) (args ! 1) (args ! 2) (args ! 3) (args ! 4) (args ! 5)]
      else if op = CHR ''c'' then
        enc @ [RelCubeTo (args ! 0) (args ! 1) (args ! 2) (args ! 3) (args ! 4) (args ! 5)]
      else if op = CHR ''H'' then enc @ [AbsHLineTo (args ! 0)]
      else if op = CHR ''h'' then enc @ [RelHLineTo (args ! 0)]
      else if op = CHR ''V'' then enc @ [AbsVLineTo (args ! 0)]
      else if op = CHR ''v'' then enc @ [RelVLineTo (args ! 0)]
      else if op = CHR ''M'' then
        (if \<not> started then enc @ [StartPath adj (args ! 0) (args ! 1)]
         else enc @ [ClosePathAbsMoveTo (args ! 0) (args ! 1)])
      else if op = CHR ''m'' then enc @ [ClosePathRelMoveTo (args ! 0) (args ! 1)]
      else enc)"

text \<open>
  The body of the \<^verbatim>\<open>for\<close> loop once a byte other than a space has been read: the
  operator switch, \<^verbatim>\<open>scan\<close>, \<^verbatim>\<open>normalize\<close> and the call on the encoder. The result
  is a failure, or the state the next iteration starts from.
\<close>

type_synonym loop_state = "reader \<times> float32 list \<times> char \<times> bool \<times> bool \<times> encoder"

definition step ::
  "scanner \<Rightarrow> 8 word \<Rightarrow> float32 \<Rightarrow> Vec2 \<Rightarrow> char \<Rightarrow> loop_state \<Rightarrow> failure + loop_state" where
  "step sc adj sz offset b st =
     (case st of (r1, args, op, relative, started, enc) \<Rightarrow>
        (let op1 = (if isUpper b \<or> isLower b then b else op);
             relative1 = (if isUpper b then False else if isLower b then True else relative);
             r2 = (if isUpper b \<or> isLower b then r1 else UnreadByte r1)
         in case arity op1 of
              None \<Rightarrow> Inl (UnknownOpcode b)
            | Some n \<Rightarrow>
                (case scan sc args r2 n of
                   Inl e \<Rightarrow> Inl e
                 | Inr (args1, r3) \<Rightarrow>
                     (case normalize args1 n op1 sz offset relative1 of
                        Inl e \<Rightarrow> Inl e
                      | Inr args2 \<Rightarrow>
                          Inr (r3, args2, op1, relative1, started \<or> op1 = CHR ''M'',
                               emit op1 adj started args2 enc)))))"

text \<open>
  The loop ends when \<^verbatim>\<open>ReadByte\<close> reports the end of the input. Nothing bounds the
  number of iterations (an iteration need not consume a byte), so the loop is a partial
  function: \<open>None\<close> is a run that never returns.
\<close>

partial_function (option) genPathData_loop ::
  "scanner \<Rightarrow> 8 word \<Rightarrow> float32 \<Rightarrow> Vec2 \<Rightarrow> loop_state \<Rightarrow> (failure + encoder) option" where
  "genPathData_loop sc adj sz offset st =
     (case st of (r, args, op, relative, started, enc) \<Rightarrow>
        (case ReadByte r of
           (None, r1) \<Rightarrow> Some (Inr enc)
         | (Some b, r1) \<Rightarrow>
             if b = CHR '' '' then
               genPathData_loop sc adj sz offset (r1, args, op, relative, started, enc)
             else (case step sc adj sz offset b (r1, args, op, relative, started, enc) of
                     Inl e \<Rightarrow> Some (Inl e)
                   | Inr st1 \<Rightarrow> genPathData_loop sc adj sz offset st1)))"

declare genPathData_loop.simps [code]

definition HasSuffix_z :: "string \<Rightarrow> bool" where
  "HasSuffix_z pathData = (pathData \<noteq> [] \<and> last pathData = CHR ''z'')"

definition genPathData ::
  "scanner \<Rightarrow> encoder \<Rightarrow> 8 word \<Rightarrow> string \<Rightarrow> float32 \<Rightarrow> Vec2 \<Rightarrow> (failure + encoder) option" where
  "genPathData sc enc adj pathData sz offset =
     (let pathData1 = (if HasSuffix_z pathData then butlast pathData else pathData)
      in genPathData_loop sc adj sz offset
           (NewReader pathData1, replicate 6 (f32 0), CHR 0x00, False, False, enc))"

subsection \<open>genPath\<close>

record Path =
  D :: string
  Fill :: string
  FillOpacity :: "float32 option"
  Opacity :: "float32 option"

record Circle =
  Cx :: float32
  Cy :: float32
  R :: float32

text \<open>
  The map \<^verbatim>\<open>adjs\<close> from opacities to registers is the list of its entries, oldest
  first. A lookup compares keys with Go's \<^verbatim>\<open>==\<close>, so a NaN is never found, and
  \<^verbatim>\<open>len(adjs)\<close> is the number of entries.
\<close>

type_synonym adjs = "(float32 \<times> 8 word) list"

fun lookup :: "adjs \<Rightarrow> float32 \<Rightarrow> 8 word option" where
  "lookup [] x = None"
| "lookup ((k, v) # m) x = (if feq k x then Some v else lookup m x)"

definition opacity_of :: "Path \<Rightarrow> float32" where
  "opacity_of p =
     (case Opacity p of
        Some v \<Rightarrow> v
      | None \<Rightarrow> (case FillOpacity p of Some v \<Rightarrow> v | None \<Rightarrow> f32 1))"

text \<open>The register of an opacity, with the map and the encoder as they are afterwards.\<close>

definition register :: "encoder \<Rightarrow> adjs \<Rightarrow> float32 \<Rightarrow> 8 word \<times> adjs \<times> encoder" where
  "register enc m opacity =
     (if \<not> feq opacity (f32 1) then
        (case lookup m opacity of
           Some adj \<Rightarrow> (adj, m, enc)
         | None \<Rightarrow>
             (let adj = (of_nat (length m + 1) :: 8 word)
              in (adj, m @ [(opacity, adj)],
                  enc @ [SetCReg adj False
                           (BlendColor (uint8_of_float32 (fmul opacity (f32 255))) 0x7f 0x80)])))
      else (0, m, enc))"

fun circles_loop :: "8 word \<Rightarrow> float32 \<Rightarrow> Vec2 \<Rightarrow> Circle list \<Rightarrow> bool \<Rightarrow> encoder \<Rightarrow> encoder" where
  "circles_loop adj sz offset [] needStartPath enc = enc"
| "circles_loop adj sz offset (c # cs) needStartPath enc =
     (let cx = fdiv (fmul (Cx c) (f32 (of_int outSize))) sz;
          cx = fsub cx (fadd (f32 (of_int (outSize div 2))) (at2 offset 0));
          cy = fdiv (fmul (Cy c) (f32 (of_int outSize))) sz;
          cy = fsub cy (fadd (f32 (of_int (outSize div 2))) (at2 offset 1));
          r = fdiv (fmul (R c) (f32 (of_int outSize))) sz;
          enc1 = (if needStartPath then enc @ [StartPath adj (fsub cx r) cy]
                  else enc @ [ClosePathAbsMoveTo (fsub cx r) cy]);
          enc2 = enc1 @ [RelArcTo r r (f32 0) False True (fmul (f32 2) r) (f32 0)];
          enc3 = enc2 @ [RelArcTo r r (f32 0) False True (fmul (f32 (- 2)) r) (f32 0)]
      in circles_loop adj sz offset cs False enc3)"

definition genPath ::
  "scanner \<Rightarrow> encoder \<Rightarrow> Path \<Rightarrow> adjs \<Rightarrow> float32 \<Rightarrow> Vec2 \<Rightarrow> Circle list
     \<Rightarrow> (failure + encoder \<times> adjs) option" where
  "genPath sc enc p m sz offset circles =
     (case register enc m (opacity_of p) of
        (adj, m1, enc1) \<Rightarrow>
          (if D p \<noteq> [] then
             (case genPathData sc enc1 adj (D p) sz offset of
                None \<Rightarrow> None
              | Some (Inl e) \<Rightarrow> Some (Inl e)
              | Some (Inr enc2) \<Rightarrow>
                  Some (Inr (circles_loop adj sz offset circles False enc2 @ [ClosePathEndPath], m1)))
           else
             Some (Inr (circles_loop adj sz offset circles True enc1 @ [ClosePathEndPath], m1))))"

subsection \<open>genFile\<close>

text \<open>
  Of \<^verbatim>\<open>genFile\<close> the model keeps what follows the decoding of the file: the offset
  computed from the first two numbers of the view box, the loop over the paths with its
  skip list, and the extra path for circles that no path has taken. The encoder starts
  empty, which stands for the state after \<^verbatim>\<open>enc.Reset\<close>.
\<close>

record SVG =
  Paths :: "Path list"
  Circles :: "Circle list"

definition skippedPaths :: "(string \<times> string) list" where
  "skippedPaths = [(''M16 34h22v4H16z'', ''#fff''), (''M20.36 18'', [])]"

definition skipped :: "Path \<Rightarrow> bool" where
  "skipped p = (case map_of skippedPaths (D p) of Some fill \<Rightarrow> fill = Fill p | None \<Rightarrow> False)"

fun paths_loop ::
  "scanner \<Rightarrow> float32 \<Rightarrow> Vec2 \<Rightarrow> Path list \<Rightarrow> Circle list \<Rightarrow> adjs \<Rightarrow> encoder
     \<Rightarrow> (failure + encoder \<times> adjs \<times> Circle list) option" where
  "paths_loop sc sz offset [] circles m enc = Some (Inr (enc, m, circles))"
| "paths_loop sc sz offset (p # ps) circles m enc =
     (if skipped p then paths_loop sc sz offset ps circles m enc
      else (case genPath sc enc p m sz offset circles of
              None \<Rightarrow> None
            | Some (Inl e) \<Rightarrow> Some (Inl e)
            | Some (Inr (enc1, m1)) \<Rightarrow> paths_loop sc sz offset ps [] m1 enc1))"

definition genFile ::
  "scanner \<Rightarrow> float32 \<Rightarrow> float32 \<Rightarrow> SVG \<Rightarrow> float32 \<Rightarrow> (failure + encoder \<times> adjs) option" where
  "genFile sc vbx vby g sz =
     (let offset = (fdiv (fmul vbx (f32 (of_int outSize))) sz,
                    fdiv (fmul vby (f32 (of_int outSize))) sz)
      in case paths_loop sc sz offset (Paths g) (Circles g) [] [] of
           None \<Rightarrow> None
         | Some (Inl e) \<Rightarrow> Some (Inl e)
         | Some (Inr (enc, m, circles)) \<Rightarrow>
             (if circles \<noteq> [] then
                genPath sc enc \<lparr>D = [], Fill = [], FillOpacity = None, Opacity = None\<rparr>
                  m sz offset circles
              else Some (Inr (enc, m))))"

subsection \<open>A scanner for the verb \<^verbatim>\<open>%f\<close>\<close>

text \<open>
  The concrete scenarios need one scanner. \<open>fscanf_f\<close> follows the Go library the
  generator was written against (Go 1.6): \<^verbatim>\<open>Fscanf\<close> skips white space (a newline is
  an error), fails at the end of the input, collects a token with \<^verbatim>\<open>floatToken\<close>
  and converts it with \<^verbatim>\<open>strconv.ParseFloat(token, 32)\<close>, or with \<^verbatim>\<open>math.Ldexp\<close> when
  the token has a binary exponent. A failure leaves consumed what had been read.
\<close>

definition isDigit :: "char \<Rightarrow> bool" where
  "isDigit c = ((48::nat) \<le> of_char c \<and> of_char c \<le> (57::nat))"

definition space_len :: "string \<Rightarrow> nat" where
  "space_len xs =
     (if take 1 xs \<in> {[CHR 0x09], [CHR 0x0B], [CHR 0x0C], [CHR 0x0D], [CHR 0x20]} then 1
      else if take 2 xs \<in> {[CHR 0xC2, CHR 0x85], [CHR 0xC2, CHR 0xA0]} then 2
      else if take 3 xs \<in> {[CHR 0xE1, CHR 0x9A, CHR 0x80], [CHR 0xE2, CHR 0x80, CHR 0xA8],
                [CHR 0xE2, CHR 0x80, CHR 0xA9], [CHR 0xE2, CHR 0x80, CHR 0xAF],
                [CHR 0xE2, CHR 0x81, CHR 0x9F], [CHR 0xE3, CHR 0x80, CHR 0x80]} then 3
      else if take 2 xs = [CHR 0xE2, CHR 0x80] \<and> 3 \<le> length xs
              \<and> (128::nat) \<le> of_char (xs ! 2) \<and> of_char (xs ! 2) \<le> (138::nat) then 3
      else 0)"

function skipSpace :: "string \<Rightarrow> bool \<times> string" where
  "skipSpace xs =
     (if xs = [] then (True, xs)
      else if hd xs = CHR 0x0A then (False, tl xs)
      else if 0 < space_len xs then skipSpace (drop (space_len xs) xs)
      else (True, xs))"
  by pat_completeness auto
termination
  by (relation "measure length") auto

definition accept :: "string \<Rightarrow> string \<times> string \<Rightarrow> bool \<times> string \<times> string" where
  "accept ok st =
     (case st of
        (buf, []) \<Rightarrow> (False, buf, [])
      | (buf, c # cs) \<Rightarrow> if c \<in> set ok then (True, buf @ [c], cs) else (False, buf, c # cs))"

definition accept_digits :: "string \<times> string \<Rightarrow> string \<times> string" where
  "accept_digits st = (case st of (buf, xs) \<Rightarrow> (buf @ takeWhile isDigit xs, dropWhile isDigit xs))"

definition floatToken :: "string \<Rightarrow> string \<times> string" where
  "floatToken xs =
     (case accept ''nN'' ([], xs) of (n1, st1) \<Rightarrow>
      case (if n1 then accept ''aA'' st1 else (False, st1)) of (n2, st2) \<Rightarrow>
      case (if n2 then accept ''nN'' st2 else (False, st2)) of (n3, st3) \<Rightarrow>
      if n3 then st3 else
      case accept ''+-'' st3 of (sg, st4) \<Rightarrow>
      case accept ''iI'' st4 of (i1, st5) \<Rightarrow>
      case (if i1 then accept ''nN'' st5 else (False, st5)) of (i2, st6) \<Rightarrow>
      case (if i2 then accept ''fF'' st6 else (False, st6)) of (i3, st7) \<Rightarrow>
      if i3 then st7 else
      case accept ''.'' (accept_digits st7) of (p, st8) \<Rightarrow>
      case accept ''eEp'' (if p then accept_digits st8 else st8) of (e, st9) \<Rightarrow>
      if e then accept_digits (snd (accept ''+-'' st9)) else st9)"

definition digits_val :: "string \<Rightarrow> nat" where
  "digits_val ds = foldl (\<lambda>v c. 10 * v + (of_char c - 48)) 0 ds"

definition lower :: "char \<Rightarrow> char" where
  "lower c = (if isUpper c then char_of (of_char c + (32::nat)) else c)"

definition split_sign :: "string \<Rightarrow> bool \<times> string" where
  "split_sign xs =
     (case xs of
        [] \<Rightarrow> (False, [])
      | c # cs \<Rightarrow> if c = CHR ''-'' then (True, cs) else if c = CHR ''+'' then (False, cs)
                  else (False, c # cs))"

text \<open>
  The decimal syntax of \<^verbatim>\<open>ParseFloat\<close>: a sign, digits with at most one point and at
  least one digit, and an exponent \<^verbatim>\<open>e\<close> with at least one digit. The result is the
  sign and the exact magnitude.
\<close>

definition parse_decimal :: "string \<Rightarrow> (bool \<times> rat) option" where
  "parse_decimal xs =
     (case split_sign xs of (sg, xs1) \<Rightarrow>
      (let ip = takeWhile isDigit xs1;
           r1 = dropWhile isDigit xs1;
           fp = (case r1 of [] \<Rightarrow> [] | c # cs \<Rightarrow> if c = CHR ''.'' then takeWhile isDigit cs else []);
           r2 = (case r1 of [] \<Rightarrow> [] | c # cs \<Rightarrow> if c = CHR ''.'' then dropWhile isDigit cs else r1);
           m = of_nat (digits_val (ip @ fp)) * 10 powi (- int (length fp))
       in if ip = [] \<and> fp = [] then None
          else (case r2 of
                  [] \<Rightarrow> Some (sg, m)
                | c # cs \<Rightarrow>
                    if c = CHR ''e'' \<or> c = CHR ''E'' then
                      (case split_sign cs of (esg, ds) \<Rightarrow>
                         if ds \<noteq> [] \<and> list_all isDigit ds then
                           Some (sg, m * 10 powi (if esg then - int (digits_val ds) else int (digits_val ds)))
                         else None)
                    else None)))"

text \<open>A value that rounds to an infinity is a range error of \<^verbatim>\<open>ParseFloat\<close>.\<close>

definition ParseFloat32 :: "string \<Rightarrow> float32 option" where
  "ParseFloat32 xs =
     (let l = map lower xs in
      if l = ''nan'' then Some NaN
      else if l \<in> {''inf'', ''+inf'', ''infinity'', ''+infinity''} then Some (Infinity False)
      else if l \<in> {''-inf'', ''-infinity''} then Some (Infinity True)
      else (case parse_decimal xs of
              None \<Rightarrow> None
            | Some (sg, m) \<Rightarrow>
                (case round32 sg m of
                   Finite a k \<Rightarrow> Some (Finite a k)
                 | Infinity a \<Rightarrow> None
                 | NaN \<Rightarrow> None)))"

definition Atoi :: "string \<Rightarrow> int option" where
  "Atoi xs =
     (case split_sign xs of (sg, ds) \<Rightarrow>
        if ds \<noteq> [] \<and> list_all isDigit ds then
          (let v = (if sg then - int (digits_val ds) else int (digits_val ds))
           in if - (2 ^ 63) \<le> v \<and> v < 2 ^ 63 then Some v else None)
        else None)"

definition convertFloat :: "string \<Rightarrow> float32 option" where
  "convertFloat tok =
     (if CHR ''p'' \<in> set tok then
        (case ParseFloat32 (takeWhile (\<lambda>c. c \<noteq> CHR ''p'') tok) of
           None \<Rightarrow> None
         | Some f \<Rightarrow>
             (case Atoi (tl (dropWhile (\<lambda>c. c \<noteq> CHR ''p'') tok)) of
                None \<Rightarrow> None
              | Some e \<Rightarrow> Some (case f of Finite a k \<Rightarrow> round32 a (k * 2 powi e) | _ \<Rightarrow> f)))
      else ParseFloat32 tok)"

definition fscanf_f :: scanner where
  "fscanf_f xs =
     (case skipSpace xs of
        (False, ys) \<Rightarrow> (None, length xs - length ys)
      | (True, ys) \<Rightarrow>
          if ys = [] then (None, length xs)
          else (case floatToken ys of (tok, zs) \<Rightarrow> (convertFloat tok, length xs - length zs)))"

subsection \<open>Inputs of the scenarios\<close>

definition no_path :: Path where
  "no_path = \<lparr>D = [], Fill = [], FillOpacity = None, Opacity = None\<rparr>"

definition scenario_A :: SVG where
  "scenario_A = \<lparr>Paths = [no_path\<lparr>D := ''M10 10L20 10L20 20Z''\<rparr>], Circles = []\<rparr>"

subsection \<open>The normalizer as the specification words it\<close>

text \<open>
  The transformation of operand \<open>i\<close> of an operator with \<open>n\<close> operands, written
  after the specification: scale by target size over native size; for an absolute
  operator subtract half the target size, then the offset of the axis, which is
  \<open>i mod 2\<close> when the operator has two coordinates or more, the x axis for the
  horizontal line and the y axis for the vertical line.
\<close>

definition spec_normalize :: "char \<Rightarrow> nat \<Rightarrow> bool \<Rightarrow> float32 \<Rightarrow> Vec2 \<Rightarrow> nat \<Rightarrow> float32 \<Rightarrow> float32" where
  "spec_normalize op n relative sz offset i a =
     (let scaled = fmul a (fdiv (f32 48) sz) in
      if relative then scaled
      else if 2 \<le> n then fsub (fsub scaled (f32 24)) (at2 offset (i mod 2))
      else if op = CHR ''H'' then fsub (fsub scaled (f32 24)) (fst offset)
      else fsub (fsub scaled (f32 24)) (snd offset))"

text \<open>What one iteration of the loop of \<^verbatim>\<open>normalize\<close> stores in \<^verbatim>\<open>args[i]\<close>.\<close>

definition normalize_operand :: "nat \<Rightarrow> char \<Rightarrow> float32 \<Rightarrow> Vec2 \<Rightarrow> bool \<Rightarrow> nat \<Rightarrow> float32 \<Rightarrow> float32" where
  "normalize_operand n op sz offset relative i x =
     (let a = fmul x (fdiv (f32 (of_int outSize)) sz) in
      if relative then a
      else (let a = fsub a (f32 (of_int (outSize div 2)))
            in if n \<noteq> 1 then fsub a (at2 offset (i mod 2))
               else if op = CHR ''H'' then fsub a (at2 offset 0)
               else if op = CHR ''V'' then fsub a (at2 offset 1)
               else a))"

definition scenario_B :: SVG where
  "scenario_B =
     \<lparr>Paths = [no_path\<lparr>D := ''M0 0h1'', Opacity := Some (f32 (1 / 2))\<rparr>,
               no_path\<lparr>D := ''M0 0h1'', Opacity := Some (f32 (1 / 2))\<rparr>],
      Circles = []\<rparr>"

subsection \<open>Predicates on path data and results\<close>

text \<open>
  Path data whose first byte other than a space, if there is one, is a letter, and all of
  whose letters are operators of the arity table.
\<close>

definition isLetter :: "char \<Rightarrow> bool" where
  "isLetter b = (isUpper b \<or> isLower b)"

definition first_is_letter :: "string \<Rightarrow> bool" where
  "first_is_letter xs =
     (case dropWhile (\<lambda>c. c = CHR '' '') xs of [] \<Rightarrow> True | c # cs \<Rightarrow> isLetter c)"

definition operators_only :: "string \<Rightarrow> bool" where
  "operators_only xs = (first_is_letter xs \<and> (\<forall>c \<in> set xs. isLetter c \<longrightarrow> arity c \<noteq> None))"

fun failed :: "(failure + 'a) option \<Rightarrow> bool" where
  "failed (Some (Inl e)) = True"
| "failed r = False"

text \<open>
  The commands a path may hold between the register definition and the closing of
  the path: no \<^verbatim>\<open>SetCReg\<close>, no \<^verbatim>\<open>ClosePathEndPath\<close>, and a \<^verbatim>\<open>StartPath\<close> only in
  the register of the path. \<open>starts\<close> counts the \<^verbatim>\<open>StartPath\<close> commands, and
  \<open>first_op_M\<close> holds of path data whose first byte other than a space is \<^verbatim>\<open>M\<close>.
\<close>

fun is_StartPath :: "command \<Rightarrow> bool" where
  "is_StartPath (StartPath r x y) = True"
| "is_StartPath c = False"

fun path_op :: "8 word \<Rightarrow> command \<Rightarrow> bool" where
  "path_op adj (StartPath r x y) = (r = adj)"
| "path_op adj (SetCReg r b c) = False"
| "path_op adj ClosePathEndPath = False"
| "path_op adj c = True"

definition starts :: "command list \<Rightarrow> nat" where
  "starts cmds = length (filter is_StartPath cmds)"

definition first_op_M :: "string \<Rightarrow> bool" where
  "first_op_M xs =
     (case dropWhile (\<lambda>c. c = CHR '' '') xs of [] \<Rightarrow> False | c # cs \<Rightarrow> c = CHR ''M'')"

subsection \<open>The commands of a circle\<close>

text \<open>
  The three commands of one circle: the centre and the radius are scaled by
  \<open>48 / size\<close> (multiplying first), the centre is moved by \<open>24\<close> plus the offset, the
  path starts or the subpath moves at the leftmost point, and two relative arcs with
  both radii \<open>r\<close>, rotation 0 and the flags \<open>(false, true)\<close> go \<open>2 * r\<close> to the right
  and the same distance back.
\<close>

definition circle_commands :: "8 word \<Rightarrow> float32 \<Rightarrow> Vec2 \<Rightarrow> bool \<Rightarrow> Circle \<Rightarrow> command list" where
  "circle_commands adj sz offset needStartPath c =
     (let cx = fsub (fdiv (fmul (Cx c) (f32 48)) sz) (fadd (f32 24) (fst offset));
          cy = fsub (fdiv (fmul (Cy c) (f32 48)) sz) (fadd (f32 24) (snd offset));
          r = fdiv (fmul (R c) (f32 48)) sz
      in [if needStartPath then StartPath adj (fsub cx r) cy else ClosePathAbsMoveTo (fsub cx r) cy,
          RelArcTo r r (f32 0) False True (fmul (f32 2) r) (f32 0),
          RelArcTo r r (f32 0) False True (fneg (fmul (f32 2) r)) (f32 0)])"

fun circles_commands :: "8 word \<Rightarrow> float32 \<Rightarrow> Vec2 \<Rightarrow> bool \<Rightarrow> Circle list \<Rightarrow> command list" where
  "circles_commands adj sz offset needStartPath [] = []"
| "circles_commands adj sz offset needStartPath (c # cs) =
     circle_commands adj sz offset needStartPath c @ circles_commands adj sz offset False cs"

section \<open>Properties\<close>

subsection \<open>Scenario A\<close>

text \<open>
  Against claim C4: the path data \<^verbatim>\<open>M10 10L20 10L20 20Z\<close> at native size 24 and with a
  view box at the origin does not start at \<open>(-14, -14)\<close>. The scale is \<open>48 / 24 = 2\<close>,
  so the first point is \<open>10 * 2 - 24 = -4\<close> on both axes.
\<close>

theorem scenario_A_start_counterexample:
  "genPath fscanf_f [] (no_path\<lparr>D := ''M10 10L20 10L20 20Z''\<rparr>) [] (f32 24) (f32 0, f32 0) [] =
     Some (Inr ([StartPath 0 (f32 (- 4)) (f32 (- 4)), AbsLineTo (f32 16) (f32 (- 4)),
                 AbsLineTo (f32 16) (f32 16), ClosePathEndPath], []))
   \<and> StartPath 0 (f32 (- 4)) (f32 (- 4)) \<noteq> StartPath 0 (f32 (- 14)) (f32 (- 14))"
  by code_simp

text \<open>
  Claim C4, amended: for the path data \<^verbatim>\<open>M10 10L20 10L20 20Z\<close>, native size 24 and a
  view box whose first two numbers are 0, the generator emits a start-path at
  \<open>(-4, -4)\<close> in register 0, exactly two absolute line-to commands, to \<open>(16, -4)\<close> and
  \<open>(16, 16)\<close>, and the close-and-end-path. The capital \<^verbatim>\<open>Z\<close> is read as an operator
  without operands and emits nothing.
\<close>

theorem scenario_A_commands:
  "genFile fscanf_f (f32 0) (f32 0) scenario_A (f32 24) =
     Some (Inr ([StartPath 0 (f32 (- 4)) (f32 (- 4)), AbsLineTo (f32 16) (f32 (- 4)),
                 AbsLineTo (f32 16) (f32 16), ClosePathEndPath], []))"
  by code_simp

subsection \<open>Constants\<close>

lemma f32_1: "f32 1 = Finite False 1"
  by code_simp

lemma feq_one_one: "feq (f32 1) (f32 1)"
  by (simp add: f32_1 signed_def)

subsection \<open>The coordinate normalizer\<close>

lemma normalize_loop_eq:
  "n \<le> length args \<Longrightarrow>
   normalize_loop i args n op sz offset relative =
     Inr (map (\<lambda>j. if i \<le> j \<and> j < n then normalize_operand n op sz offset relative j (args ! j) else args ! j)
            [0..<length args])"
proof (induction "n - i" arbitrary: i args)
  case 0
  then have "\<not> i < n" by simp
  then show ?case
    by (subst normalize_loop.simps) (auto intro!: nth_equalityI)
next
  case (Suc k)
  then have lt: "i < n" and len: "\<not> length args \<le> i" by simp_all
  let ?x = "normalize_operand n op sz offset relative i (args ! i)"
  have step: "normalize_loop i args n op sz offset relative =
              normalize_loop (i + 1) (args[i := ?x]) n op sz offset relative"
    using lt len by (subst normalize_loop.simps) (simp add: normalize_operand_def Let_def)
  have "k = n - (i + 1)" using Suc.hyps(2) by simp
  from Suc.hyps(1)[OF this, of "args[i := ?x]"] Suc.prems
  have ih: "normalize_loop (i + 1) (args[i := ?x]) n op sz offset relative =
       Inr (map (\<lambda>j. if i + 1 \<le> j \<and> j < n
                       then normalize_operand n op sz offset relative j (args[i := ?x] ! j)
                       else args[i := ?x] ! j) [0..<length (args[i := ?x])])"
    by simp
  show ?case
    unfolding step ih using lt len
    by (auto intro!: nth_equalityI simp: nth_list_update)
qed

lemma arity_cases:
  "arity op = Some n \<Longrightarrow> n \<le> 6 \<and> (n = 1 \<longrightarrow> op \<in> {CHR ''H'', CHR ''h'', CHR ''V'', CHR ''v''})"
  by (auto simp: arity_def split: if_splits)

lemma isLower_hv: "isLower CHR ''h''" "isLower CHR ''v''" "\<not> isLower CHR ''H''" "\<not> isLower CHR ''V''"
  by (simp_all add: isLower_def)

lemma consts48: "f32 (of_int outSize) = f32 48" "f32 (of_int (outSize div 2)) = f32 24"
  by (simp_all add: outSize_def)

text \<open>
  Claim C5: for an operator of the arity table with its \<open>n\<close> operands, \<^verbatim>\<open>normalize\<close>
  rewrites each of the first \<open>n\<close> entries of the operand array as the specification
  says and leaves the other entries alone: every operand is scaled by
  \<open>48 / size\<close>; for an absolute operator \<open>24\<close> is subtracted, then the offset of the
  axis (\<open>i mod 2\<close> for two coordinates or more, x for \<^verbatim>\<open>H\<close>, y for \<^verbatim>\<open>V\<close>); for a
  relative operator only the scale is applied.
\<close>

theorem normalize_spec:
  assumes "arity op = Some n" and "relative = isLower op" and "length args = 6"
  shows "normalize args n op sz offset relative =
           Inr (map (\<lambda>i. if i < n then spec_normalize op n relative sz offset i (args ! i) else args ! i)
                  [0..<6])"
proof -
  from arity_cases[OF assms(1)] have n6: "n \<le> 6"
    and hv: "n = 1 \<longrightarrow> op \<in> {CHR ''H'', CHR ''h'', CHR ''V'', CHR ''v''}" by auto
  have eq: "normalize_operand n op sz offset relative i a = spec_normalize op n relative sz offset i a" if "i < n" for i a
  proof -
    from that have "n \<noteq> 0" by simp
    then show ?thesis
      using hv assms(2) isLower_hv
      by (auto simp: normalize_operand_def spec_normalize_def Let_def consts48 at2_def)
  qed
  show ?thesis
    unfolding normalize_def using n6 assms(3)
    by (subst normalize_loop_eq) (auto simp: eq)
qed

text \<open>The theorem at the horizontal line with operand 1, size 24 and offset \<open>(2, 3)\<close>.\<close>

theorem normalize_spec_witness:
  "normalize (replicate 6 (f32 1)) 1 CHR ''H'' (f32 24) (f32 2, f32 3) False =
     Inr [f32 (- 24), f32 1, f32 1, f32 1, f32 1, f32 1]"
proof -
  have a: "arity CHR ''H'' = Some 1" by (simp add: arity_def)
  have b: "False = isLower CHR ''H''" by (simp add: isLower_def)
  have c: "length (replicate 6 (f32 1)) = 6" by simp
  have "map (\<lambda>i. if i < 1 then spec_normalize CHR ''H'' 1 False (f32 24) (f32 2, f32 3) i (replicate 6 (f32 1) ! i) else replicate 6 (f32 1) ! i) [0..<6]
     = [f32 (- 24), f32 1, f32 1, f32 1, f32 1, f32 1]"
    by code_simp
  with normalize_spec[OF a b c, of "f32 24" "(f32 2, f32 3)"] show ?thesis by simp
qed

subsection \<open>Rounding\<close>

lemma ilog2_le:
  assumes "0 < q"
  shows "2 powi (ilog2 q) \<le> q"
proof -
  obtain a b where ab: "quotient_of q = (a, b)" by (cases "quotient_of q")
  then have b: "0 < b" and q: "q = of_int a / of_int b"
    by (auto dest: quotient_of_denom_pos quotient_of_div)
  with assms have a: "0 < a" by (simp add: zero_less_divide_iff)
  let ?e = "bitlen a - bitlen b"
  show ?thesis
  proof (cases "q < 2 powi ?e")
    case False
    then show ?thesis using ab by (simp add: ilog2_def Let_def)
  next
    case True
    then have il: "ilog2 q = ?e - 1" using ab by (simp add: ilog2_def Let_def)
    from bitlen_bounds[OF a] have la: "(2::int) ^ nat (bitlen a - 1) \<le> a" by simp
    from bitlen_bounds[OF b] have lb: "b < (2::int) ^ nat (bitlen b)" by simp
    have pa: "0 < bitlen a"
    proof (rule ccontr)
      assume "\<not> 0 < bitlen a"
      then have "nat (bitlen a) = 0" by simp
      with bitlen_bounds[OF a] a show False by simp
    qed
    have pb: "0 < bitlen b"
    proof (rule ccontr)
      assume "\<not> 0 < bitlen b"
      then have "nat (bitlen b) = 0" by simp
      with bitlen_bounds[OF b] b show False by simp
    qed
    have "(2::rat) powi (?e - 1) = 2 powi (bitlen a - 1) / 2 powi (bitlen b)"
      using power_int_diff[of "2::rat" "bitlen a - 1" "bitlen b"] by (simp add: algebra_simps)
    also have "\<dots> = 2 ^ nat (bitlen a - 1) / 2 ^ nat (bitlen b)"
      using pa pb by (simp add: power_int_def)
    also have "\<dots> \<le> of_int a / of_int b"
    proof (rule frac_le)
      show "(0::rat) \<le> of_int a" using a by simp
      from la have "rat_of_int (2 ^ nat (bitlen a - 1)) \<le> of_int a" by (simp only: of_int_le_iff)
      then show "(2::rat) ^ nat (bitlen a - 1) \<le> of_int a" by simp
      show "(0::rat) < of_int b" using b by simp
      from lb have "rat_of_int b \<le> of_int (2 ^ nat (bitlen b))" by (simp only: of_int_le_iff)
      then show "rat_of_int b \<le> 2 ^ nat (bitlen b)" by simp
    qed
    finally show ?thesis using il q by simp
  qed
qed

lemma ilog2_less:
  assumes "0 < q" and "q < 2 powi k"
  shows "ilog2 q < k"
proof (rule ccontr)
  assume "\<not> ilog2 q < k"
  then have "(2::rat) powi k \<le> 2 powi (ilog2 q)" by (intro power_int_increasing) simp_all
  with ilog2_le[OF assms(1)] assms(2) show False by simp
qed

lemma round_half_even_bounds:
  "\<lfloor>x\<rfloor> \<le> round_half_even x" "round_half_even x \<le> \<lceil>x\<rceil>"
proof -
  show "\<lfloor>x\<rfloor> \<le> round_half_even x" by (simp add: round_half_even_def Let_def)
  have "\<lfloor>x\<rfloor> + 1 \<le> \<lceil>x\<rceil>" if "0 < x - of_int \<lfloor>x\<rfloor>"
    using that by (simp add: ceiling_altdef)
  moreover have "\<lfloor>x\<rfloor> \<le> \<lceil>x\<rceil>" by (simp add: floor_le_ceiling)
  ultimately show "round_half_even x \<le> \<lceil>x\<rceil>"
    by (auto simp: round_half_even_def Let_def)
qed

lemma round32_below_255:
  assumes "0 < m" and "m < 255"
  shows "\<exists>k. round32 sg m = Finite sg k \<and> 0 \<le> k \<and> k \<le> 255"
proof -
  define e where "e = max (ilog2 m) (- 126)"
  define s where "s = nat (23 - e)"
  have "m < 2 powi 8" using assms(2) by simp
  from ilog2_less[OF assms(1) this] have e: "e \<le> 7" by (simp add: e_def)
  have u: "(2::rat) powi (e - 23) = 1 / 2 ^ s"
    using e power_int_minus_divide[of "2::rat" "23 - e"] by (simp add: s_def power_int_def)
  let ?n = "round_half_even (m * 2 ^ s)"
  have s16: "16 \<le> s" using e by (simp add: s_def)
  have "m * 2 ^ s \<le> of_int (255 * 2 ^ s)" using assms(2) by simp
  then have "\<lceil>m * 2 ^ s\<rceil> \<le> 255 * 2 ^ s" by (simp only: ceiling_le_iff)
  with round_half_even_bounds(2)[of "m * 2 ^ s"] have up: "?n \<le> 255 * 2 ^ s" by simp
  have "0 \<le> m * 2 ^ s" using assms(1) by simp
  then have "0 \<le> \<lfloor>m * 2 ^ s\<rfloor>" by simp
  with round_half_even_bounds(1)[of "m * 2 ^ s"] have lo: "0 \<le> ?n" by linarith
  let ?r = "of_int ?n / (2::rat) ^ s"
  have r0: "0 \<le> ?r" using lo by simp
  have "rat_of_int ?n \<le> of_int (255 * 2 ^ s)" using up by (simp only: of_int_le_iff)
  then have r255: "?r \<le> 255" by (simp add: divide_le_eq)
  then have "\<not> 2 ^ 128 \<le> ?r" by simp
  then have "round32 sg m = Finite sg ?r"
    using assms(1) u by (simp add: round32_def Let_def e_def[symmetric])
  with r0 r255 show ?thesis by blast
qed

lemma f32_255: "f32 255 = Finite False 255"
  by code_simp

lemma uint8_weight:
  assumes "0 < q" and "q < 1"
  shows "\<exists>k. fmul (Finite False q) (f32 255) = Finite False k \<and> 0 \<le> k \<and> k \<le> 255
           \<and> uint8_of_float32 (fmul (Finite False q) (f32 255)) = word_of_int \<lfloor>k\<rfloor>"
proof -
  have "0 < q * 255" "q * 255 < 255" using assms by simp_all
  from round32_below_255[OF this, of False] obtain k
    where k: "round32 False (q * 255) = Finite False k" "0 \<le> k" "k \<le> 255" by blast
  have "\<lfloor>k\<rfloor> \<le> 255" using k(3) by (simp add: floor_le_iff)
  moreover have "0 \<le> \<lfloor>k\<rfloor>" using k(2) by simp
  ultimately have "uint8_of_float32 (Finite False k) = word_of_int \<lfloor>k\<rfloor>" by simp
  with k show ?thesis by (simp add: f32_255)
qed

subsection \<open>The weight of a register\<close>

text \<open>
  Against claim C2: the register defined for the opacity \<open>0.5\<close> has the weight 127, not
  \<open>128 = round (0.5 * 255)\<close>. The product \<open>127.5\<close> is exact in \<^verbatim>\<open>float32\<close> and the
  conversion \<^verbatim>\<open>uint8\<close> drops its fraction.
\<close>

theorem half_opacity_weight_counterexample:
  "register [] [] (f32 (1 / 2)) =
     (1, [(f32 (1 / 2), 1)], [SetCReg 1 False (BlendColor 127 0x7f 0x80)])
   \<and> (127 :: 8 word) \<noteq> 128"
  by code_simp

text \<open>
  Claim C2, amended: for every opacity \<open>v\<close> in \<open>(0, 1)\<close> that the map does not hold
  yet, the define-register effect is one \<^verbatim>\<open>SetCReg\<close> of the next register with the
  blend of \<^verbatim>\<open>0x7f\<close> and \<^verbatim>\<open>0x80\<close> weighted by the integer part of the \<^verbatim>\<open>float32\<close>
  product \<open>v * 255\<close>, which lies between 0 and 255: the weight is truncated, not
  rounded. For two shapes that both have opacity \<open>0.5\<close> exactly one register is
  defined, register 1 with weight 127, and both paths start in it.
\<close>

theorem define_register_weight:
  "(0 < q \<and> q < 1 \<and> lookup m (Finite False q) = None \<longrightarrow>
      (\<exists>k. fmul (Finite False q) (f32 255) = Finite False k \<and> 0 \<le> k \<and> k \<le> 255 \<and>
           register enc m (Finite False q) =
             (of_nat (length m + 1), m @ [(Finite False q, of_nat (length m + 1))],
              enc @ [SetCReg (of_nat (length m + 1)) False
                       (BlendColor (word_of_int \<lfloor>k\<rfloor>) 0x7f 0x80)])))
   \<and> genFile fscanf_f (f32 0) (f32 0) scenario_B (f32 24) =
       Some (Inr ([SetCReg 1 False (BlendColor 127 0x7f 0x80),
                   StartPath 1 (f32 (- 24)) (f32 (- 24)), RelHLineTo (f32 2), ClosePathEndPath,
                   StartPath 1 (f32 (- 24)) (f32 (- 24)), RelHLineTo (f32 2), ClosePathEndPath],
                  [(f32 (1 / 2), 1)]))"
proof (intro conjI impI)
  assume h: "0 < q \<and> q < 1 \<and> lookup m (Finite False q) = None"
  then have q: "0 < q" "q < 1" and l: "lookup m (Finite False q) = None" by simp_all
  from uint8_weight[OF q] obtain k
    where k: "fmul (Finite False q) (f32 255) = Finite False k" "0 \<le> k" "k \<le> 255"
      "uint8_of_float32 (fmul (Finite False q) (f32 255)) = word_of_int \<lfloor>k\<rfloor>"
    by blast
  have ne: "\<not> feq (Finite False q) (f32 1)" using q by (simp add: f32_1 signed_def)
  have "register enc m (Finite False q) =
          (of_nat (length m + 1), m @ [(Finite False q, of_nat (length m + 1))],
           enc @ [SetCReg (of_nat (length m + 1)) False
                    (BlendColor (word_of_int \<lfloor>k\<rfloor>) 0x7f 0x80)])"
    using ne l k(4) by (simp add: register_def Let_def)
  with k show "\<exists>k. fmul (Finite False q) (f32 255) = Finite False k \<and> 0 \<le> k \<and> k \<le> 255 \<and>
           register enc m (Finite False q) =
             (of_nat (length m + 1), m @ [(Finite False q, of_nat (length m + 1))],
              enc @ [SetCReg (of_nat (length m + 1)) False
                       (BlendColor (word_of_int \<lfloor>k\<rfloor>) 0x7f 0x80)])"
    by blast
next
  show "genFile fscanf_f (f32 0) (f32 0) scenario_B (f32 24) =
       Some (Inr ([SetCReg 1 False (BlendColor 127 0x7f 0x80),
                   StartPath 1 (f32 (- 24)) (f32 (- 24)), RelHLineTo (f32 2), ClosePathEndPath,
                   StartPath 1 (f32 (- 24)) (f32 (- 24)), RelHLineTo (f32 2), ClosePathEndPath],
                  [(f32 (1 / 2), 1)]))"
    by code_simp
qed

text \<open>The theorem at the opacity \<open>1 / 4\<close> with an empty map: the weight is 63.\<close>

theorem define_register_weight_witness:
  "(0::rat) < 1 / 4 \<and> (1 / 4 :: rat) < 1 \<and> lookup [] (Finite False (1 / 4)) = None
   \<and> register [] [] (Finite False (1 / 4)) =
        (1, [(Finite False (1 / 4), 1)], [SetCReg 1 False (BlendColor 63 0x7f 0x80)])"
proof -
  have h: "(0::rat) < 1 / 4 \<and> (1 / 4 :: rat) < 1 \<and> lookup [] (Finite False (1 / 4)) = None"
    by simp
  have v: "fmul (Finite False (1 / 4)) (f32 255) = Finite False (255 / 4)"
    by code_simp
  have fl: "\<lfloor>255 / 4 :: rat\<rfloor> = 63"
    by code_simp
  from define_register_weight[of "1 / 4" "[]" "[]"] h
  obtain k where kk: "fmul (Finite False (1 / 4)) (f32 255) = Finite False k"
    and reg: "register [] [] (Finite False (1 / 4)) =
          (of_nat (length ([]::adjs) + 1), [] @ [(Finite False (1 / 4), of_nat (length ([]::adjs) + 1))],
           [] @ [SetCReg (of_nat (length ([]::adjs) + 1)) False (BlendColor (word_of_int \<lfloor>k\<rfloor>) 0x7f 0x80)])"
    by blast
  have ke: "k = 255 / 4" using kk v by simp
  have "\<lfloor>k\<rfloor> = 63" unfolding ke by (rule fl)
  with reg h show ?thesis by simp
qed

subsection \<open>The loop of genPathData\<close>

lemma r_s_ReadByte: "ReadByte r = (x, r1) \<Longrightarrow> r_s r1 = r_s r"
  by (auto simp: ReadByte_def split: if_splits)

lemma r_s_UnreadByte [simp]: "r_s (UnreadByte r) = r_s r"
  by (simp add: UnreadByte_def)

lemma r_s_skip_spaces [simp]: "r_s (skip_spaces r) = r_s r"
proof (induction r rule: skip_spaces.induct)
  case (1 r)
  show ?case
  proof (cases "ReadByte r")
    case (Pair x r1)
    then have s: "r_s r1 = r_s r" by (rule r_s_ReadByte)
    show ?thesis
    proof (cases x)
      case None
      with Pair s show ?thesis by (subst skip_spaces.simps) simp
    next
      case (Some b)
      show ?thesis
      proof (cases "b = CHR '' ''")
        case True
        with 1[OF Pair[symmetric] Some, of ] Pair Some s show ?thesis
          by (subst skip_spaces.simps) simp
      next
        case False
        with Pair Some s show ?thesis by (subst skip_spaces.simps) simp
      qed
    qed
  qed
qed

lemma r_s_Fscanf: "Fscanf sc r = (v, r1) \<Longrightarrow> r_s r1 = r_s r"
  by (auto simp: Fscanf_def split: prod.splits)

lemma scan_loop_ok:
  "n \<le> length args \<Longrightarrow>
   \<exists>args1 r1. scan_loop sc i args r n = Inr (args1, r1) \<and> length args1 = length args \<and> r_s r1 = r_s r"
proof (induction "n - i" arbitrary: i args r)
  case 0
  then show ?case by (subst scan_loop.simps) simp
next
  case (Suc k)
  then have lt: "i < n" and len: "\<not> length args \<le> i" by simp_all
  obtain v r2 where f: "Fscanf sc (skip_spaces r) = (v, r2)" by (cases "Fscanf sc (skip_spaces r)")
  from r_s_Fscanf[OF this] have s2: "r_s r2 = r_s r" by simp
  have k: "k = n - (i + 1)" using Suc.hyps(2) by simp
  show ?case
  proof (cases v)
    case None
    from Suc.hyps(1)[OF k, of args r2] Suc.prems s2 f None lt len show ?thesis
      by (subst scan_loop.simps) (simp add: Let_def)
  next
    case (Some x)
    from Suc.hyps(1)[OF k, of "args[i := x]" r2] Suc.prems s2 f Some lt len show ?thesis
      by (subst scan_loop.simps) (simp add: Let_def)
  qed
qed

lemma arity_le_6: "arity op = Some n \<Longrightarrow> n \<le> 6"
  by (auto simp: arity_def split: if_splits)

lemma arity_dom:
  "arity op = Some n \<Longrightarrow>
   op \<in> {CHR ''L'', CHR ''l'', CHR ''T'', CHR ''t'', CHR ''Q'', CHR ''q'', CHR ''S'', CHR ''s'',
         CHR ''C'', CHR ''c'', CHR ''H'', CHR ''h'', CHR ''V'', CHR ''v'', CHR ''M'', CHR ''m'',
         CHR ''Z'', CHR ''z''}"
  by (auto simp: arity_def split: if_splits)

lemma letters_isLetter:
  "\<forall>c \<in> {CHR ''L'', CHR ''l'', CHR ''T'', CHR ''t'', CHR ''Q'', CHR ''q'', CHR ''S'', CHR ''s'',
         CHR ''C'', CHR ''c'', CHR ''H'', CHR ''h'', CHR ''V'', CHR ''v'', CHR ''M'', CHR ''m'',
         CHR ''Z'', CHR ''z''}. isLetter c"
  by code_simp

lemma arity_letter: "arity op = Some n \<Longrightarrow> isLetter op"
  by (rule bspec[OF letters_isLetter arity_dom])


lemma step_unfold:
  "step sc adj sz offset b (r1, args, op, relative, started, enc) =
     (case arity (if isLetter b then b else op) of
        None \<Rightarrow> Inl (UnknownOpcode b)
      | Some n \<Rightarrow>
          (case scan sc args (if isLetter b then r1 else UnreadByte r1) n of
             Inl e \<Rightarrow> Inl e
           | Inr (args1, r3) \<Rightarrow>
               (case normalize args1 n (if isLetter b then b else op) sz offset
                       (if isLetter b then isLower b else relative) of
                  Inl e \<Rightarrow> Inl e
                | Inr args2 \<Rightarrow>
                    Inr (r3, args2, if isLetter b then b else op,
                         if isLetter b then isLower b else relative,
                         started \<or> (if isLetter b then b else op) = CHR ''M'',
                         emit (if isLetter b then b else op) adj started args2 enc))))"
proof -
  have ul: "\<not> (isUpper b \<and> isLower b)" by (auto simp: isUpper_def isLower_def)
  show ?thesis
    using ul
    by (cases "isUpper b"; cases "isLower b")
       (simp_all add: step_def isLetter_def
          cong: option.case_cong sum.case_cong prod.case_cong)
qed

lemma step_cases:
  assumes "length args = 6"
  obtains (fail) "arity (if isLetter b then b else op) = None"
      "step sc adj sz offset b (r1, args, op, relative, started, enc) = Inl (UnknownOpcode b)"
  | (ok) r3 args2 where
      "arity (if isLetter b then b else op) \<noteq> None"
      "step sc adj sz offset b (r1, args, op, relative, started, enc) =
         Inr (r3, args2, if isLetter b then b else op,
              if isLetter b then isLower b else relative,
              started \<or> (if isLetter b then b else op) = CHR ''M'',
              emit (if isLetter b then b else op) adj started args2 enc)"
      "length args2 = 6" "r_s r3 = r_s r1"
proof (cases "arity (if isLetter b then b else op)")
  case None
  then have "step sc adj sz offset b (r1, args, op, relative, started, enc) = Inl (UnknownOpcode b)"
    by (simp only: step_unfold option.case)
  with None show ?thesis by (rule fail)
next
  case (Some n)
  define op1 where "op1 = (if isLetter b then b else op)"
  define r2 where "r2 = (if isLetter b then r1 else UnreadByte r1)"
  define rel1 where "rel1 = (if isLetter b then isLower b else relative)"
  have s2: "r_s r2 = r_s r1" by (simp add: r2_def)
  have ar: "arity op1 = Some n" using Some by (simp only: op1_def)
  from arity_le_6[OF ar] assms have n: "n \<le> length args" by simp
  from scan_loop_ok[OF n, of sc 0 r2] obtain args1 r3
    where sc: "scan sc args r2 n = Inr (args1, r3)" and l1: "length args1 = 6" and s3: "r_s r3 = r_s r1"
    using assms s2 by (auto simp: scan_def)
  from l1 n assms have "n \<le> length args1" by simp
  from normalize_loop_eq[OF this, of 0 op1 sz offset rel1]
  obtain args2 where nm: "normalize args1 n op1 sz offset rel1 = Inr args2"
    and l2: "length args2 = 6"
    using l1 by (auto simp: normalize_def)
  have st: "step sc adj sz offset b (r1, args, op, relative, started, enc) =
         Inr (r3, args2, op1, rel1, started \<or> op1 = CHR ''M'', emit op1 adj started args2 enc)"
    unfolding step_unfold op1_def[symmetric] r2_def[symmetric] rel1_def[symmetric]
    by (simp only: ar sc nm option.case sum.case prod.case)
  have ne: "arity (if isLetter b then b else op) \<noteq> None" using Some by simp
  show ?thesis
    by (rule ok[OF ne st[unfolded op1_def rel1_def] l2 s3])
qed

text \<open>An invariant of the loop gives a property of every result the loop returns.\<close>

lemma loop_invariant:
  assumes run: "genPathData_loop sc adj sz offset st = Some y"
    and init: "I st"
    and eof: "\<And>r args op rel started enc r1.
        I (r, args, op, rel, started, enc) \<Longrightarrow> ReadByte r = (None, r1) \<Longrightarrow> Q (Inr enc)"
    and space: "\<And>r args op rel started enc r1.
        I (r, args, op, rel, started, enc) \<Longrightarrow> ReadByte r = (Some CHR '' '', r1) \<Longrightarrow>
        I (r1, args, op, rel, started, enc)"
    and fail: "\<And>r args op rel started enc b r1 e.
        I (r, args, op, rel, started, enc) \<Longrightarrow> ReadByte r = (Some b, r1) \<Longrightarrow> b \<noteq> CHR '' '' \<Longrightarrow>
        step sc adj sz offset b (r1, args, op, rel, started, enc) = Inl e \<Longrightarrow> Q (Inl e)"
    and succ: "\<And>r args op rel started enc b r1 st1.
        I (r, args, op, rel, started, enc) \<Longrightarrow> ReadByte r = (Some b, r1) \<Longrightarrow> b \<noteq> CHR '' '' \<Longrightarrow>
        step sc adj sz offset b (r1, args, op, rel, started, enc) = Inr st1 \<Longrightarrow> I st1"
  shows "Q y"
proof -
  have "sc = sc \<longrightarrow> adj = adj \<longrightarrow> sz = sz \<longrightarrow> offset = offset \<longrightarrow> I st \<longrightarrow> Q y"
  proof (rule genPathData_loop.raw_induct
      [where P = "\<lambda>sc' adj' sz' offset' st y.
                    sc' = sc \<longrightarrow> adj' = adj \<longrightarrow> sz' = sz \<longrightarrow> offset' = offset \<longrightarrow> I st \<longrightarrow> Q y",
        OF _ run])
    fix f :: "scanner \<Rightarrow> 8 word \<Rightarrow> float32 \<Rightarrow> Vec2 \<Rightarrow> loop_state \<Rightarrow> (failure + encoder) option"
    fix sc' adj' sz' offset' st' y'
    assume ih: "\<And>sc'' adj'' sz'' offset'' st'' y''. f sc'' adj'' sz'' offset'' st'' = Some y'' \<Longrightarrow>
                 sc'' = sc \<longrightarrow> adj'' = adj \<longrightarrow> sz'' = sz \<longrightarrow> offset'' = offset \<longrightarrow> I st'' \<longrightarrow> Q y''"
    assume body: "(case st' of
               (r, args, op, relative, started, enc) \<Rightarrow>
                 (case ReadByte r of
                    (None, r1) \<Rightarrow> Some (Inr enc)
                  | (Some b, r1) \<Rightarrow>
                      if b = CHR '' '' then f sc' adj' sz' offset' (r1, args, op, relative, started, enc)
                      else (case step sc' adj' sz' offset' b (r1, args, op, relative, started, enc) of
                              Inl e \<Rightarrow> Some (Inl e)
                            | Inr st1 \<Rightarrow> f sc' adj' sz' offset' st1))) = Some y'"
    show "sc' = sc \<longrightarrow> adj' = adj \<longrightarrow> sz' = sz \<longrightarrow> offset' = offset \<longrightarrow> I st' \<longrightarrow> Q y'"
    proof (intro impI)
      assume eqs: "sc' = sc" "adj' = adj" "sz' = sz" "offset' = offset" and inv: "I st'"
      obtain r args op rel started enc where st': "st' = (r, args, op, rel, started, enc)"
        by (cases st') auto
      obtain x r1 where rb: "ReadByte r = (x, r1)" by (cases "ReadByte r")
      show "Q y'"
      proof (cases x)
        case None
        with body st' rb have "y' = Inr enc" by simp
        with eof[OF inv[unfolded st'] rb[unfolded None]] show ?thesis by simp
      next
        case (Some b)
        show ?thesis
        proof (cases "b = CHR '' ''")
          case True
          with body st' rb Some
          have "f sc adj sz offset (r1, args, op, rel, started, enc) = Some y'"
            by (simp add: eqs)
          moreover have "I (r1, args, op, rel, started, enc)"
            using space[OF inv[unfolded st']] rb Some True by simp
          ultimately show ?thesis using ih by blast
        next
          case False
          show ?thesis
          proof (cases "step sc adj sz offset b (r1, args, op, rel, started, enc)")
            case (Inl e)
            with body st' rb Some False have "y' = Inl e" by (simp add: eqs)
            with fail[OF inv[unfolded st'] rb[unfolded Some] False Inl] show ?thesis by simp
          next
            case (Inr st1)
            with body st' rb Some False have "f sc adj sz offset st1 = Some y'" by (simp add: eqs)
            moreover have "I st1" by (rule succ[OF inv[unfolded st'] rb[unfolded Some] False Inr])
            ultimately show ?thesis using ih by blast
          qed
        qed
      qed
    qed
  qed
  with init show ?thesis by simp
qed

lemma emit_append:
  "\<exists>cs. emit op adj started args enc = enc @ cs \<and> length cs \<le> 1
        \<and> (\<forall>c \<in> set cs. path_op adj c \<and> (is_StartPath c \<longleftrightarrow> op = CHR ''M'' \<and> \<not> started))
        \<and> (op = CHR ''M'' \<longrightarrow> cs \<noteq> [])"
  by (simp add: emit_def)

lemma unread_ReadByte:
  "ReadByte r = (Some b, r1) \<Longrightarrow> unread r = b # unread r1"
  "ReadByte r = (None, r1) \<Longrightarrow> unread r = []"
  by (auto simp: ReadByte_def unread_def Cons_nth_drop_Suc split: if_splits)

lemma letter_M: "isLetter CHR ''M''"
  by code_simp

lemma first_op_M_simps:
  "first_op_M [] = False"
  "first_op_M (CHR '' '' # xs) = first_op_M xs"
  "b \<noteq> CHR '' '' \<Longrightarrow> first_op_M (b # xs) = (b = CHR ''M'')"
  by (simp_all add: first_op_M_def)

lemma first_op_M_butlast:
  "first_op_M xs \<Longrightarrow> last xs = CHR ''z'' \<Longrightarrow> first_op_M (butlast xs)"
proof (induction xs)
  case Nil
  then show ?case by (simp add: first_op_M_simps)
next
  case (Cons c xs)
  show ?case
  proof (cases "c = CHR '' ''")
    case True
    with Cons.prems(1) have f: "first_op_M xs" by (simp add: first_op_M_simps)
    then have ne: "xs \<noteq> []" by (auto simp: first_op_M_simps)
    with Cons.prems(2) have "last xs = CHR ''z''" by simp
    from Cons.IH[OF f this] True ne show ?thesis by (simp add: first_op_M_simps)
  next
    case False
    with Cons.prems(1) have c: "c = CHR ''M''" by (simp add: first_op_M_simps)
    with Cons.prems(2) have "xs \<noteq> []" by auto
    with c show ?thesis by (simp add: first_op_M_simps)
  qed
qed

lemma starts_append: "starts (xs @ ys) = starts xs + starts ys"
  by (simp add: starts_def)

lemma starts_short:
  assumes "length cs \<le> 1" and "\<forall>c \<in> set cs. is_StartPath c \<longleftrightarrow> P" and "P \<longrightarrow> cs \<noteq> []"
  shows "starts cs = (if P then 1 else 0)"
proof (cases cs)
  case Nil
  with assms(3) show ?thesis by (auto simp: starts_def)
next
  case (Cons c cs')
  with assms(1) have "cs = [c]" by simp
  with assms(2) show ?thesis by (simp add: starts_def)
qed

text \<open>The commands that the loop adds to the encoder.\<close>

lemma genPathData_loop_commands:
  assumes run: "genPathData_loop sc adj sz offset (r0, args0, op0, rel0, False, enc0) = Some (Inr enc')"
    and len: "length args0 = 6"
  shows "\<exists>cmds. enc' = enc0 @ cmds \<and> (\<forall>c \<in> set cmds. path_op adj c) \<and> starts cmds \<le> 1
           \<and> (first_op_M (unread r0) \<longrightarrow> cmds \<noteq> [] \<and> is_StartPath (hd cmds))"
proof -
  define fm where "fm = first_op_M (unread r0)"
  define I :: "loop_state \<Rightarrow> bool" where
    "I = (\<lambda>(r, args, op, rel, started, enc). length args = 6 \<and>
           (\<exists>cmds. enc = enc0 @ cmds \<and> (\<forall>c \<in> set cmds. path_op adj c)
              \<and> starts cmds = (if started then 1 else 0)
              \<and> (fm \<longrightarrow> (cmds = [] \<and> first_op_M (unread r)) \<or> (cmds \<noteq> [] \<and> is_StartPath (hd cmds)))))"
  define Q :: "failure + encoder \<Rightarrow> bool" where
    "Q = (\<lambda>y. \<forall>enc1. y = Inr enc1 \<longrightarrow>
           (\<exists>cmds. enc1 = enc0 @ cmds \<and> (\<forall>c \<in> set cmds. path_op adj c) \<and> starts cmds \<le> 1
              \<and> (fm \<longrightarrow> cmds \<noteq> [] \<and> is_StartPath (hd cmds))))"
  have "Q (Inr enc')"
  proof (rule loop_invariant[OF run, of I Q])
    show "I (r0, args0, op0, rel0, False, enc0)"
      using len by (simp add: I_def fm_def starts_def)
  next
    fix r args op rel started enc r1
    assume i: "I (r, args, op, rel, started, enc)" and rb: "ReadByte r = (None, r1)"
    from unread_ReadByte(2)[OF rb] have "\<not> first_op_M (unread r)" by (simp add: first_op_M_simps)
    with i show "Q (Inr enc)" by (auto simp: I_def Q_def)
  next
    fix r args op rel started enc r1
    assume i: "I (r, args, op, rel, started, enc)" and rb: "ReadByte r = (Some CHR '' '', r1)"
    from unread_ReadByte(1)[OF rb] have "first_op_M (unread r) = first_op_M (unread r1)"
      by (simp add: first_op_M_simps)
    with i show "I (r1, args, op, rel, started, enc)" by (simp add: I_def)
  next
    fix r args op rel started enc b r1 e
    show "Q (Inl e)" by (simp add: Q_def)
  next
    fix r args op rel started enc b r1 st1
    assume i: "I (r, args, op, rel, started, enc)" and rb: "ReadByte r = (Some b, r1)"
      and nsp: "b \<noteq> CHR '' ''"
      and st: "step sc adj sz offset b (r1, args, op, rel, started, enc) = Inr st1"
    from i have l6: "length args = 6" by (simp add: I_def)
    from i obtain cmds where enc: "enc = enc0 @ cmds" and po: "\<forall>c \<in> set cmds. path_op adj c"
      and cnt: "starts cmds = (if started then 1 else 0)"
      and fst: "fm \<longrightarrow> (cmds = [] \<and> first_op_M (unread r)) \<or> (cmds \<noteq> [] \<and> is_StartPath (hd cmds))"
      by (auto simp: I_def)
    define op1 where "op1 = (if isLetter b then b else op)"
    have "\<exists>r3 args2. st1 = (r3, args2, op1, if isLetter b then isLower b else rel,
              started \<or> op1 = CHR ''M'', emit op1 adj started args2 enc) \<and> length args2 = 6"
    proof (rule step_cases[OF l6, of b op sc adj sz offset r1 rel started enc])
      assume "step sc adj sz offset b (r1, args, op, rel, started, enc) = Inl (UnknownOpcode b)"
      with st show ?thesis by simp
    next
      fix r3 args2
      assume "step sc adj sz offset b (r1, args, op, rel, started, enc) =
         Inr (r3, args2, if isLetter b then b else op,
              if isLetter b then isLower b else rel,
              started \<or> (if isLetter b then b else op) = CHR ''M'',
              emit (if isLetter b then b else op) adj started args2 enc)"
        and l: "length args2 = 6"
      with st have "st1 = (r3, args2, op1, if isLetter b then isLower b else rel,
              started \<or> op1 = CHR ''M'', emit op1 adj started args2 enc)"
        by (simp add: op1_def)
      with l show ?thesis by blast
    qed
    then obtain r3 args2 where st1: "st1 = (r3, args2, op1, if isLetter b then isLower b else rel,
              started \<or> op1 = CHR ''M'', emit op1 adj started args2 enc)"
      and l2: "length args2 = 6"
      by blast
    from emit_append[of op1 adj started args2 enc] obtain cs
      where em: "emit op1 adj started args2 enc = enc @ cs" and cl: "length cs \<le> 1"
        and cp: "\<forall>c \<in> set cs. path_op adj c"
        and cs: "\<forall>c \<in> set cs. is_StartPath c \<longleftrightarrow> op1 = CHR ''M'' \<and> \<not> started"
        and cm: "op1 = CHR ''M'' \<longrightarrow> cs \<noteq> []"
      by blast
    have sc: "starts cs = (if op1 = CHR ''M'' \<and> \<not> started then 1 else 0)"
      by (rule starts_short[OF cl cs]) (use cm in simp)
    have cnt': "starts (cmds @ cs) = (if started \<or> op1 = CHR ''M'' then 1 else 0)"
      using cnt sc by (simp add: starts_append)
    have fst': "fm \<longrightarrow> (cmds @ cs \<noteq> [] \<and> is_StartPath (hd (cmds @ cs)))"
    proof
      assume fm
      with fst consider "cmds = []" "first_op_M (unread r)" | "cmds \<noteq> []" "is_StartPath (hd cmds)"
        by blast
      then show "cmds @ cs \<noteq> [] \<and> is_StartPath (hd (cmds @ cs))"
      proof cases
        case 1
        with unread_ReadByte(1)[OF rb] nsp have bM: "b = CHR ''M''" by (simp add: first_op_M_simps)
        then have o: "op1 = CHR ''M''" using letter_M by (simp add: op1_def)
        from 1 cnt have ns: "\<not> started" by (simp add: starts_def split: if_splits)
        from cm o obtain c where c: "cs = [c]" using cl by (cases cs) auto
        with cs o ns have "is_StartPath c" by simp
        with 1 c show ?thesis by simp
      next
        case 2
        then show ?thesis by simp
      qed
    qed
    show "I st1"
      unfolding st1 I_def prod.case
      using l2 em enc po cp cnt' fst'
      by (intro conjI exI[of _ "cmds @ cs"]) auto
  qed
  then show ?thesis by (simp add: Q_def fm_def)
qed

subsection \<open>The commands of one path\<close>

lemma f32_2: "f32 2 = Finite False 2" "f32 (- 2) = Finite True 2"
  by code_simp+

lemma fneg_round32: "fneg (round32 sg m) = round32 (\<not> sg) m"
  by (simp add: round32_def Let_def)

lemma fmul_minus_two: "fmul (f32 (- 2)) r = fneg (fmul (f32 2) r)"
  by (cases r) (simp_all add: f32_2 fneg_round32)

lemma circles_loop_eq:
  "circles_loop adj sz offset cs needStartPath enc = enc @ circles_commands adj sz offset needStartPath cs"
proof (induction cs arbitrary: needStartPath enc)
  case Nil
  show ?case by simp
next
  case (Cons c cs)
  show ?case
    by (simp add: Cons.IH Let_def circle_commands_def consts48 at2_def fmul_minus_two)
qed

lemma circles_commands_ops:
  "(\<forall>c \<in> set (circles_commands adj sz offset ns cs). path_op adj c)
   \<and> starts (circles_commands adj sz offset ns cs) = (if ns \<and> cs \<noteq> [] then 1 else 0)
   \<and> (ns \<and> cs \<noteq> [] \<longrightarrow> is_StartPath (hd (circles_commands adj sz offset ns cs)))
   \<and> (cs \<noteq> [] \<longrightarrow> circles_commands adj sz offset ns cs \<noteq> [])"
proof (induction cs arbitrary: ns)
  case Nil
  show ?case by (simp add: starts_def)
next
  case (Cons c cs)
  from Cons.IH[of False] show ?case
    by (simp add: circle_commands_def Let_def starts_def)
qed

lemma genPathData_commands:
  assumes "genPathData sc enc adj d sz offset = Some (Inr enc')"
  shows "\<exists>cmds. enc' = enc @ cmds \<and> (\<forall>c \<in> set cmds. path_op adj c) \<and> starts cmds \<le> 1
           \<and> (first_op_M d \<longrightarrow> cmds \<noteq> [] \<and> is_StartPath (hd cmds))"
proof -
  define d1 where "d1 = (if HasSuffix_z d then butlast d else d)"
  have run: "genPathData_loop sc adj sz offset
               (NewReader d1, replicate 6 (f32 0), CHR 0x00, False, False, enc) = Some (Inr enc')"
    using assms by (simp add: genPathData_def Let_def d1_def)
  have u: "unread (NewReader d1) = d1" by (simp add: unread_def NewReader_def)
  have "first_op_M d \<Longrightarrow> first_op_M d1"
    using first_op_M_butlast[of d] by (auto simp: d1_def HasSuffix_z_def)
  with genPathData_loop_commands[OF run] u show ?thesis by auto
qed

text \<open>The commands of one path, after the register has been resolved.\<close>

lemma genPath_commands:
  assumes run: "genPath sc enc p m sz offset circles = Some (Inr (enc', m'))"
    and reg: "register enc m (opacity_of p) = (adj, m1, enc1)"
  shows "m' = m1 \<and>
         (\<exists>cmds. enc' = enc1 @ cmds @ [ClosePathEndPath] \<and> (\<forall>c \<in> set cmds. path_op adj c)
            \<and> starts cmds \<le> 1
            \<and> (first_op_M (D p) \<or> (D p = [] \<and> circles \<noteq> []) \<longrightarrow> cmds \<noteq> [] \<and> is_StartPath (hd cmds)))"
proof (cases "D p = []")
  case True
  let ?cc = "circles_commands adj sz offset True circles"
  from run reg True have e: "enc' = enc1 @ ?cc @ [ClosePathEndPath]" and m: "m' = m1"
    by (simp_all add: genPath_def circles_loop_eq)
  from True have nf: "\<not> first_op_M (D p)" by (simp add: first_op_M_simps)
  from circles_commands_ops[of adj sz offset True circles] e m nf True show ?thesis
    by (intro conjI exI[of _ ?cc]) (auto split: if_splits)
next
  case False
  let ?cc = "circles_commands adj sz offset False circles"
  from run reg False obtain enc2 where g: "genPathData sc enc1 adj (D p) sz offset = Some (Inr enc2)"
    and e: "enc' = enc2 @ ?cc @ [ClosePathEndPath]" and m: "m' = m1"
    by (auto simp: genPath_def circles_loop_eq split: option.splits sum.splits)
  from genPathData_commands[OF g] obtain cmds where c: "enc2 = enc1 @ cmds"
    and po: "\<forall>c \<in> set cmds. path_op adj c" and st: "starts cmds \<le> 1"
    and fm: "first_op_M (D p) \<longrightarrow> cmds \<noteq> [] \<and> is_StartPath (hd cmds)"
    by blast
  from circles_commands_ops[of adj sz offset False circles]
  have cc: "\<forall>c \<in> set ?cc. path_op adj c" "starts ?cc = 0" by simp_all
  show ?thesis
    using e m c po st fm cc False
    by (intro conjI exI[of _ "cmds @ ?cc"]) (auto simp: starts_append)
qed

subsection \<open>Which attribute gives the opacity\<close>

text \<open>
  Claim C10: let \<open>v\<close> be the \<^verbatim>\<open>opacity\<close> attribute of a path when there is one, its
  \<^verbatim>\<open>fill-opacity\<close> attribute when there is no \<^verbatim>\<open>opacity\<close>, and \<open>1\<close> when there is
  neither. Then \<^verbatim>\<open>genPath\<close> does what it does on the path that carries \<open>v\<close> as its
  only opacity, and with an \<^verbatim>\<open>opacity\<close> attribute the \<^verbatim>\<open>fill-opacity\<close> is ignored.
  The register, the map and the encoder that \<^verbatim>\<open>genPath\<close> works with are those of
  \<open>register\<close> at \<open>v\<close>: without path data the result is the encoder after
  \<open>register\<close>, the circles in that register and the closing of the path; with path
  data it is what \<^verbatim>\<open>genPathData\<close> makes of that encoder in that register, then the
  circles and the closing; and whenever \<^verbatim>\<open>genPath\<close> returns, every \<^verbatim>\<open>StartPath\<close> it
  has added is in that register and no further \<^verbatim>\<open>SetCReg\<close> follows. With both
  attributes absent the register is 0 and neither the map nor the encoder changes.
\<close>

theorem opacity_precedence:
  assumes sel: "Opacity p = Some v \<or> (Opacity p = None \<and> FillOpacity p = Some v)
                \<or> (Opacity p = None \<and> FillOpacity p = None \<and> v = f32 1)"
  shows "genPath sc enc p m sz offset circles =
           genPath sc enc (p\<lparr>FillOpacity := None, Opacity := Some v\<rparr>) m sz offset circles
     \<and> (Opacity p = Some v \<longrightarrow>
          genPath sc enc (p\<lparr>FillOpacity := fo\<rparr>) m sz offset circles =
          genPath sc enc p m sz offset circles)
     \<and> (case register enc m v of (adj, m1, enc1) \<Rightarrow>
          (D p = [] \<longrightarrow>
             genPath sc enc p m sz offset circles =
               Some (Inr (enc1 @ circles_commands adj sz offset True circles @ [ClosePathEndPath], m1)))
          \<and> (D p \<noteq> [] \<longrightarrow>
             genPath sc enc p m sz offset circles =
               (case genPathData sc enc1 adj (D p) sz offset of
                  None \<Rightarrow> None
                | Some (Inl e) \<Rightarrow> Some (Inl e)
                | Some (Inr enc2) \<Rightarrow>
                    Some (Inr (enc2 @ circles_commands adj sz offset False circles @ [ClosePathEndPath],
                               m1))))
          \<and> (\<forall>enc' m'. genPath sc enc p m sz offset circles = Some (Inr (enc', m')) \<longrightarrow>
                m' = m1 \<and> (\<exists>cmds. enc' = enc1 @ cmds @ [ClosePathEndPath]
                                \<and> (\<forall>c \<in> set cmds. path_op adj c))))
     \<and> (Opacity p = None \<and> FillOpacity p = None \<longrightarrow> register enc m v = (0, m, enc))"
proof -
  from sel have ov: "opacity_of p = v" by (auto simp: opacity_of_def)
  obtain adj m1 enc1 where reg: "register enc m v = (adj, m1, enc1)" by (cases "register enc m v")
  have 1: "genPath sc enc p m sz offset circles =
           genPath sc enc (p\<lparr>FillOpacity := None, Opacity := Some v\<rparr>) m sz offset circles"
  proof -
    have o: "opacity_of (p\<lparr>FillOpacity := None, Opacity := Some v\<rparr>) = v"
      by (simp add: opacity_of_def)
    have d: "D (p\<lparr>FillOpacity := None, Opacity := Some v\<rparr>) = D p"
      by simp
    show ?thesis unfolding genPath_def ov o d ..
  qed
  have 2: "Opacity p = Some v \<longrightarrow>
          genPath sc enc (p\<lparr>FillOpacity := fo\<rparr>) m sz offset circles =
          genPath sc enc p m sz offset circles"
  proof
    assume a: "Opacity p = Some v"
    then have o: "opacity_of (p\<lparr>FillOpacity := fo\<rparr>) = v"
      by (simp add: opacity_of_def)
    have d: "D (p\<lparr>FillOpacity := fo\<rparr>) = D p"
      by simp
    show "genPath sc enc (p\<lparr>FillOpacity := fo\<rparr>) m sz offset circles =
          genPath sc enc p m sz offset circles"
      unfolding genPath_def ov o d ..
  qed
  have 3: "D p = [] \<longrightarrow> genPath sc enc p m sz offset circles =
               Some (Inr (enc1 @ circles_commands adj sz offset True circles @ [ClosePathEndPath], m1))"
    using ov reg by (simp add: genPath_def circles_loop_eq)
  have 4: "D p \<noteq> [] \<longrightarrow> genPath sc enc p m sz offset circles =
               (case genPathData sc enc1 adj (D p) sz offset of
                  None \<Rightarrow> None
                | Some (Inl e) \<Rightarrow> Some (Inl e)
                | Some (Inr enc2) \<Rightarrow>
                    Some (Inr (enc2 @ circles_commands adj sz offset False circles @ [ClosePathEndPath],
                               m1)))"
    using ov reg by (simp add: genPath_def circles_loop_eq split: option.splits sum.splits)
  have 5: "\<forall>enc' m'. genPath sc enc p m sz offset circles = Some (Inr (enc', m')) \<longrightarrow>
                m' = m1 \<and> (\<exists>cmds. enc' = enc1 @ cmds @ [ClosePathEndPath]
                                \<and> (\<forall>c \<in> set cmds. path_op adj c))"
  proof (intro allI impI)
    fix enc' m'
    assume run: "genPath sc enc p m sz offset circles = Some (Inr (enc', m'))"
    have reg': "register enc m (opacity_of p) = (adj, m1, enc1)"
      unfolding ov by (rule reg)
    from genPath_commands[OF run reg'] obtain cmds
      where "m' = m1" "enc' = enc1 @ cmds @ [ClosePathEndPath]" "\<forall>c \<in> set cmds. path_op adj c"
      by blast
    then show "m' = m1 \<and> (\<exists>cmds. enc' = enc1 @ cmds @ [ClosePathEndPath]
                                \<and> (\<forall>c \<in> set cmds. path_op adj c))"
      by blast
  qed
  have 6: "Opacity p = None \<and> FillOpacity p = None \<longrightarrow> register enc m v = (0, m, enc)"
    using sel by (auto simp: register_def feq_one_one)
  then have 7: "Opacity p = None \<and> FillOpacity p = None \<longrightarrow> (adj, m1, enc1) = (0, m, enc)"
    unfolding reg .
  show ?thesis
    unfolding reg prod.case by (intro conjI 1 2 3 4 5 7)
qed

text \<open>
  The theorem at three paths with the data \<^verbatim>\<open>M0 0h1\<close>: with opacity \<open>1 / 2\<close> and
  fill-opacity \<open>1 / 4\<close> the register has the weight 127 of \<open>1 / 2\<close>; with the
  fill-opacity alone it has the weight 63 of \<open>1 / 4\<close>; with neither the path starts in
  register 0 and no register is defined.
\<close>

theorem opacity_precedence_witness:
  "genPath fscanf_f [] (no_path\<lparr>D := ''M0 0h1'', FillOpacity := Some (f32 (1 / 4)),
                               Opacity := Some (f32 (1 / 2))\<rparr>) [] (f32 24) (f32 0, f32 0) [] =
     Some (Inr ([SetCReg 1 False (BlendColor 127 0x7f 0x80), StartPath 1 (f32 (- 24)) (f32 (- 24)),
                 RelHLineTo (f32 2), ClosePathEndPath], [(f32 (1 / 2), 1)]))
   \<and> genPath fscanf_f [] (no_path\<lparr>D := ''M0 0h1'', FillOpacity := Some (f32 (1 / 4))\<rparr>)
        [] (f32 24) (f32 0, f32 0) [] =
     Some (Inr ([SetCReg 1 False (BlendColor 63 0x7f 0x80), StartPath 1 (f32 (- 24)) (f32 (- 24)),
                 RelHLineTo (f32 2), ClosePathEndPath], [(f32 (1 / 4), 1)]))
   \<and> genPath fscanf_f [] (no_path\<lparr>D := ''M0 0h1''\<rparr>) [] (f32 24) (f32 0, f32 0) [] =
     Some (Inr ([StartPath 0 (f32 (- 24)) (f32 (- 24)), RelHLineTo (f32 2), ClosePathEndPath], []))"
proof -
  let ?p1 = "no_path\<lparr>D := ''M0 0h1'', FillOpacity := Some (f32 (1 / 4)), Opacity := Some (f32 (1 / 2))\<rparr>"
  let ?p2 = "no_path\<lparr>D := ''M0 0h1'', FillOpacity := Some (f32 (1 / 4))\<rparr>"
  let ?p3 = "no_path\<lparr>D := ''M0 0h1''\<rparr>"
  have s1: "Opacity ?p1 = Some (f32 (1 / 2)) \<or> (Opacity ?p1 = None \<and> FillOpacity ?p1 = Some (f32 (1 / 2)))
            \<or> (Opacity ?p1 = None \<and> FillOpacity ?p1 = None \<and> f32 (1 / 2) = f32 1)"
    by simp
  have s2: "Opacity ?p2 = Some (f32 (1 / 4)) \<or> (Opacity ?p2 = None \<and> FillOpacity ?p2 = Some (f32 (1 / 4)))
            \<or> (Opacity ?p2 = None \<and> FillOpacity ?p2 = None \<and> f32 (1 / 4) = f32 1)"
    by (simp add: no_path_def)
  have s3: "Opacity ?p3 = Some (f32 1) \<or> (Opacity ?p3 = None \<and> FillOpacity ?p3 = Some (f32 1))
            \<or> (Opacity ?p3 = None \<and> FillOpacity ?p3 = None \<and> f32 1 = f32 1)"
    by (simp add: no_path_def)
  have e1: "genPath fscanf_f [] (?p1\<lparr>FillOpacity := None, Opacity := Some (f32 (1 / 2))\<rparr>)
              [] (f32 24) (f32 0, f32 0) [] =
     Some (Inr ([SetCReg 1 False (BlendColor 127 0x7f 0x80), StartPath 1 (f32 (- 24)) (f32 (- 24)),
                 RelHLineTo (f32 2), ClosePathEndPath], [(f32 (1 / 2), 1)]))"
    by code_simp
  have e2: "genPath fscanf_f [] (?p2\<lparr>FillOpacity := None, Opacity := Some (f32 (1 / 4))\<rparr>)
              [] (f32 24) (f32 0, f32 0) [] =
     Some (Inr ([SetCReg 1 False (BlendColor 63 0x7f 0x80), StartPath 1 (f32 (- 24)) (f32 (- 24)),
                 RelHLineTo (f32 2), ClosePathEndPath], [(f32 (1 / 4), 1)]))"
    by code_simp
  have e3: "genPath fscanf_f [] (?p3\<lparr>FillOpacity := None, Opacity := Some (f32 1)\<rparr>)
              [] (f32 24) (f32 0, f32 0) [] =
     Some (Inr ([StartPath 0 (f32 (- 24)) (f32 (- 24)), RelHLineTo (f32 2), ClosePathEndPath], []))"
    by code_simp
  from opacity_precedence[OF s1, of fscanf_f "[]" "[]" "f32 24" "(f32 0, f32 0)" "[]"]
  have "genPath fscanf_f [] ?p1 [] (f32 24) (f32 0, f32 0) [] =
        genPath fscanf_f [] (?p1\<lparr>FillOpacity := None, Opacity := Some (f32 (1 / 2))\<rparr>)
              [] (f32 24) (f32 0, f32 0) []"
    by (rule conjunct1)
  then have 1: "genPath fscanf_f [] ?p1 [] (f32 24) (f32 0, f32 0) [] =
     Some (Inr ([SetCReg 1 False (BlendColor 127 0x7f 0x80), StartPath 1 (f32 (- 24)) (f32 (- 24)),
                 RelHLineTo (f32 2), ClosePathEndPath], [(f32 (1 / 2), 1)]))"
    by (rule trans) (rule e1)
  from opacity_precedence[OF s2, of fscanf_f "[]" "[]" "f32 24" "(f32 0, f32 0)" "[]"]
  have "genPath fscanf_f [] ?p2 [] (f32 24) (f32 0, f32 0) [] =
        genPath fscanf_f [] (?p2\<lparr>FillOpacity := None, Opacity := Some (f32 (1 / 4))\<rparr>)
              [] (f32 24) (f32 0, f32 0) []"
    by (rule conjunct1)
  then have 2: "genPath fscanf_f [] ?p2 [] (f32 24) (f32 0, f32 0) [] =
     Some (Inr ([SetCReg 1 False (BlendColor 63 0x7f 0x80), StartPath 1 (f32 (- 24)) (f32 (- 24)),
                 RelHLineTo (f32 2), ClosePathEndPath], [(f32 (1 / 4), 1)]))"
    by (rule trans) (rule e2)
  from opacity_precedence[OF s3, of fscanf_f "[]" "[]" "f32 24" "(f32 0, f32 0)" "[]"]
  have "genPath fscanf_f [] ?p3 [] (f32 24) (f32 0, f32 0) [] =
        genPath fscanf_f [] (?p3\<lparr>FillOpacity := None, Opacity := Some (f32 1)\<rparr>)
              [] (f32 24) (f32 0, f32 0) []"
    by (rule conjunct1)
  then have 3: "genPath fscanf_f [] ?p3 [] (f32 24) (f32 0, f32 0) [] =
     Some (Inr ([StartPath 0 (f32 (- 24)) (f32 (- 24)), RelHLineTo (f32 2), ClosePathEndPath], []))"
    by (rule trans) (rule e3)
  from 1 2 3 show ?thesis by (intro conjI)
qed

end
